theory Spec2Isabelle
  imports Complex_Main
begin

section \<open>The sampling rate calculator: rule matcher and sampling simulator\<close>

text \<open>
  A shallow embedding of the calculator module (\<^verbatim>\<open>matchesRule\<close> and
  \<^verbatim>\<open>simulateSampling\<close>).

  Modelling decisions:
  \<^item> A JavaScript number is a \<^typ>\<open>real\<close>: the arithmetic of the module is read as exact
    arithmetic, rounding is not modelled. A group count is a non-negative integer
    (\<^typ>\<open>nat\<close>), absent when the property is missing.
  \<^item> A JavaScript string is a \<^typ>\<open>string\<close>, one \<^typ>\<open>char\<close> per code unit, which covers
    the code units below 256 (Latin-1).
  \<^item> A property that may be missing (\<^verbatim>\<open>undefined\<close>) is an \<^typ>\<open>'a option\<close>.
  \<^item> A span object is a map from attribute names to strings, with its count.
  \<^item> The regular expression engine and the locale number formatting belong to the
    JavaScript runtime; they are parameters of the model.
  \<^item> An exception is a value \<open>Inl e\<close> of the result type; \<^verbatim>\<open>console.log\<close> is not modelled.
\<close>

subsection \<open>The runtime: strings\<close>

text \<open>\<^verbatim>\<open>String.prototype.trim\<close> removes white space and line terminators at both ends.\<close>

definition isWhiteSpace :: "char \<Rightarrow> bool" where
  "isWhiteSpace c =
     (let n = (of_char c :: nat)
      in n = 9 \<or> n = 10 \<or> n = 11 \<or> n = 12 \<or> n = 13 \<or> n = 32 \<or> n = 160)"

definition str_trim :: "string \<Rightarrow> string" where
  "str_trim s = rev (dropWhile isWhiteSpace (rev (dropWhile isWhiteSpace s)))"

text \<open>\<^verbatim>\<open>String.prototype.toLowerCase\<close>: A-Z, and the Latin-1 capitals but the
  multiplication sign, move up by 32.\<close>

definition toLowerChar :: "char \<Rightarrow> char" where
  "toLowerChar c =
     (let n = (of_char c :: nat)
      in if (65 \<le> n \<and> n \<le> 90) \<or> (192 \<le> n \<and> n \<le> 222 \<and> n \<noteq> 215)
         then char_of (n + 32) else c)"

definition str_toLowerCase :: "string \<Rightarrow> string" where
  "str_toLowerCase s = map toLowerChar s"

fun str_startsWith :: "string \<Rightarrow> string \<Rightarrow> bool" where
  "str_startsWith s [] = True"
| "str_startsWith [] (p # ps) = False"
| "str_startsWith (c # cs) (p # ps) = (c = p \<and> str_startsWith cs ps)"

definition str_endsWith :: "string \<Rightarrow> string \<Rightarrow> bool" where
  "str_endsWith s p = str_startsWith (rev s) (rev p)"

fun str_includes :: "string \<Rightarrow> string \<Rightarrow> bool" where
  "str_includes [] p = (p = [])"
| "str_includes (c # cs) p = (str_startsWith (c # cs) p \<or> str_includes cs p)"

subsection \<open>The runtime: regular expressions and exceptions\<close>

datatype js_error = SyntaxError

text \<open>
  The engine maps a pattern to the test of the expression compiled with the flag
  \<^verbatim>\<open>i\<close>, or to \<open>None\<close> when the pattern is invalid; \<^verbatim>\<open>new RegExp\<close> throws then.
\<close>

type_synonym regexp_engine = "string \<Rightarrow> (string \<Rightarrow> bool) option"

definition new_RegExp :: "regexp_engine \<Rightarrow> string \<Rightarrow> js_error + (string \<Rightarrow> bool)" where
  "new_RegExp rx pattern =
     (case rx pattern of None \<Rightarrow> Inl SyntaxError | Some test \<Rightarrow> Inr test)"

subsection \<open>Data\<close>

record rule =
  attribute :: "string option"
  operator :: "string option"
  rule_value :: "string option"
  rate :: real

record span_item =
  attrs :: "string \<rightharpoonup> string"
  count :: "nat option"

record breakdown_row = span_item +
  rawCount :: real
  simulatedCount :: real
  samplingRate :: real
  matchedRule :: string

text \<open>The data array, with the property \<^verbatim>\<open>_totalCountFromMeta\<close> attached to it.\<close>

record raw_data =
  items :: "span_item list"
  totalCountFromMeta :: "real option"

record simulation_result =
  totalRawCount :: real
  totalSimulatedCount :: real
  breakdown :: "breakdown_row list"
  costReduction :: real
  monthlyRawCount :: real
  monthlySimulatedCount :: real

subsection \<open>The rule matcher\<close>

text \<open>
  \<^verbatim>\<open>matchesRule(item, rule)\<close>. The first test is \<^verbatim>\<open>!rule.attribute || !rule.value\<close>: a
  missing or empty string is falsy. The \<^verbatim>\<open>try\<close>/\<^verbatim>\<open>catch\<close> of the regex case turns the
  exception of \<^verbatim>\<open>new RegExp\<close> into \<^verbatim>\<open>false\<close>.
\<close>

definition switch_operator :: "regexp_engine \<Rightarrow> string \<Rightarrow> string \<Rightarrow> string \<Rightarrow> js_error + bool" where
  \<comment> \<open>the \<^verbatim>\<open>switch (operator)\<close> statement of \<^verbatim>\<open>matchesRule\<close>\<close>
  "switch_operator rx opr spanValue ruleValue =
     (if opr = ''equals'' then
        Inr (str_toLowerCase spanValue = str_toLowerCase ruleValue)
      else if opr = ''contains'' then
        Inr (str_includes (str_toLowerCase spanValue) (str_toLowerCase ruleValue))
      else if opr = ''starts_with'' then
        Inr (str_startsWith (str_toLowerCase spanValue) (str_toLowerCase ruleValue))
      else if opr = ''ends_with'' then
        Inr (str_endsWith (str_toLowerCase spanValue) (str_toLowerCase ruleValue))
      else if opr = ''regex'' then
        (case new_RegExp rx ruleValue of
           Inl e \<Rightarrow> Inr False
         | Inr regex \<Rightarrow> Inr (regex spanValue))
      else Inr (str_includes (str_toLowerCase spanValue) (str_toLowerCase ruleValue)))"

definition matchesRule :: "regexp_engine \<Rightarrow> span_item \<Rightarrow> rule \<Rightarrow> js_error + bool" where
  "matchesRule rx item rule =
     (case (attribute rule, rule_value rule) of
        (Some a, Some v) \<Rightarrow>
          if a = [] \<or> v = [] then Inr False
          else
            let spanValue = (case attrs item a of None \<Rightarrow> [] | Some s \<Rightarrow> s);
                ruleValue = str_trim v;
                operator = (case operator rule of
                              None \<Rightarrow> ''contains''
                            | Some opr \<Rightarrow> if opr = [] then ''contains'' else opr)
            in if spanValue = [] then Inr False
               else switch_operator rx operator spanValue ruleValue
      | _ \<Rightarrow> Inr False)"

subsection \<open>The runtime: sorting an array\<close>

text \<open>
  \<^verbatim>\<open>Array.prototype.sort\<close> with a comparison function is a stable sort: an element
  goes before the first element that the comparison does not put before it.
\<close>

fun insert_by :: "('a \<Rightarrow> 'a \<Rightarrow> int) \<Rightarrow> 'a \<Rightarrow> 'a list \<Rightarrow> 'a list" where
  "insert_by cmp x [] = [x]"
| "insert_by cmp x (y # ys) = (if cmp x y \<le> 0 then x # y # ys else y # insert_by cmp x ys)"

definition array_sort :: "('a \<Rightarrow> 'a \<Rightarrow> int) \<Rightarrow> 'a list \<Rightarrow> 'a list" where
  "array_sort cmp xs = foldr (insert_by cmp) xs []"

subsection \<open>The sampling simulator\<close>

text \<open>The comparison function of the sort: exact matches before the others.\<close>

definition compareRules :: "rule \<Rightarrow> rule \<Rightarrow> int" where
  "compareRules a b =
     (if operator a = Some ''equals'' \<and> operator b \<noteq> Some ''equals'' then - 1
      else if operator b = Some ''equals'' \<and> operator a \<noteq> Some ''equals'' then 1
      else 0)"

definition sortedRules :: "rule list \<Rightarrow> rule list" where
  "sortedRules rules = array_sort compareRules rules"

text \<open>\<^verbatim>\<open>item.count || 0\<close>\<close>

definition itemCount :: "span_item \<Rightarrow> real" where
  "itemCount item = (case count item of None \<Rightarrow> 0 | Some c \<Rightarrow> real c)"

definition sumOfGroups :: "span_item list \<Rightarrow> real" where
  "sumOfGroups rawData = foldl (\<lambda>sum item. sum + itemCount item) 0 rawData"

text \<open>
  The loop over the sorted rules, on the variables \<^verbatim>\<open>matchedRule\<close> and
  \<^verbatim>\<open>samplingRate\<close>: it stops at the first rule that matches.
\<close>

fun firstMatch ::
  "regexp_engine \<Rightarrow> span_item \<Rightarrow> rule list \<Rightarrow> rule option \<times> real \<Rightarrow> js_error + (rule option \<times> real)"
where
  "firstMatch rx item [] st = Inr st"
| "firstMatch rx item (rule # rest) st =
     (case matchesRule rx item rule of
        Inl e \<Rightarrow> Inl e
      | Inr m \<Rightarrow> if m then Inr (Some rule, rate rule / 100) else firstMatch rx item rest st)"

text \<open>A missing property prints as \<^verbatim>\<open>undefined\<close> in a template literal.\<close>

definition template_str :: "string option \<Rightarrow> string" where
  "template_str x = (case x of None \<Rightarrow> ''undefined'' | Some s \<Rightarrow> s)"

definition ruleLabel :: "rule option \<Rightarrow> string" where
  "ruleLabel matched =
     (case matched of
        None \<Rightarrow> ''global''
      | Some r \<Rightarrow> template_str (attribute r) @ '':'' @ template_str (rule_value r))"

text \<open>The body of \<^verbatim>\<open>rawData.forEach\<close>, on the state \<^verbatim>\<open>(breakdown, totalSimulatedCount)\<close>.\<close>

definition processItem ::
  "regexp_engine \<Rightarrow> rule list \<Rightarrow> real \<Rightarrow> real \<Rightarrow> breakdown_row list \<times> real \<Rightarrow> span_item
     \<Rightarrow> js_error + (breakdown_row list \<times> real)"
where
  "processItem rx srules expansionFactor globalRate st item =
     (case firstMatch rx item srules (None, globalRate) of
        Inl e \<Rightarrow> Inl e
      | Inr (matched, rate_v) \<Rightarrow>
          let simulated = itemCount item * rate_v * expansionFactor
          in Inr (fst st @ [\<lparr>attrs = attrs item, count = count item,
                             rawCount = itemCount item, simulatedCount = simulated,
                             samplingRate = rate_v, matchedRule = ruleLabel matched\<rparr>],
                  snd st + simulated))"

fun forEach_item ::
  "regexp_engine \<Rightarrow> rule list \<Rightarrow> real \<Rightarrow> real \<Rightarrow> span_item list \<Rightarrow> breakdown_row list \<times> real
     \<Rightarrow> js_error + (breakdown_row list \<times> real)"
where
  "forEach_item rx srules expansionFactor globalRate [] st = Inr st"
| "forEach_item rx srules expansionFactor globalRate (item # rest) st =
     (case processItem rx srules expansionFactor globalRate st item of
        Inl e \<Rightarrow> Inl e
      | Inr st' \<Rightarrow> forEach_item rx srules expansionFactor globalRate rest st')"

text \<open>The block \<^verbatim>\<open>if (hasMissingSpans)\<close>; the number is printed by the runtime.\<close>

definition otherRow :: "(real \<Rightarrow> string) \<Rightarrow> real \<Rightarrow> real \<Rightarrow> real \<Rightarrow> breakdown_row" where
  "otherRow toLocaleString missingSpans expansionFactor globalRate =
     \<lparr>attrs = [''span.op'' \<mapsto> ''(other)'',
               ''span.description'' \<mapsto>
                 ''Other spans ('' @ toLocaleString missingSpans @ '' spans not in top 100 groups)''],
      count = None,
      rawCount = missingSpans,
      simulatedCount = missingSpans * globalRate * expansionFactor,
      samplingRate = globalRate,
      matchedRule = ''global''\<rparr>"

definition addMissingSpans ::
  "(real \<Rightarrow> string) \<Rightarrow> real \<Rightarrow> real \<Rightarrow> real \<Rightarrow> breakdown_row list \<times> real
     \<Rightarrow> breakdown_row list \<times> real"
where
  "addMissingSpans toLocaleString missingSpans expansionFactor globalRate st =
     (if missingSpans > 0
      then (fst st @ [otherRow toLocaleString missingSpans expansionFactor globalRate],
            snd st + missingSpans * globalRate * expansionFactor)
      else st)"

text \<open>The cost reduction, the monthly projections and the returned object.\<close>

definition makeResult :: "real \<Rightarrow> breakdown_row list \<times> real \<Rightarrow> real \<Rightarrow> simulation_result" where
  "makeResult totalRaw st days =
     (let reduction = (if totalRaw > 0 then ((totalRaw - snd st) / totalRaw) * 100 else 0);
          daysInMonth = 30;
          periodMultiplier = daysInMonth / days
      in \<lparr>totalRawCount = totalRaw,
          totalSimulatedCount = snd st,
          breakdown = fst st,
          costReduction = max 0 reduction,
          monthlyRawCount = totalRaw * periodMultiplier,
          monthlySimulatedCount = snd st * periodMultiplier\<rparr>)"

text \<open>
  \<^verbatim>\<open>simulateSampling(rawData, rules, expansionFactor, globalRate, days)\<close>. The quotient
  \<^verbatim>\<open>daysInMonth / days\<close> is the real quotient, which is the program's for \<open>days \<noteq> 0\<close>.
\<close>

definition simulateSampling ::
  "regexp_engine \<Rightarrow> (real \<Rightarrow> string) \<Rightarrow> raw_data \<Rightarrow> rule list \<Rightarrow> real \<Rightarrow> real \<Rightarrow> real
     \<Rightarrow> js_error + simulation_result"
where
  "simulateSampling rx toLocaleString rawData rules expansionFactor globalRate days =
     (if items rawData = [] then
        Inr \<lparr>totalRawCount = 0, totalSimulatedCount = 0, breakdown = [], costReduction = 0,
             monthlyRawCount = 0, monthlySimulatedCount = 0\<rparr>
      else
        let totalRaw = (case totalCountFromMeta rawData of
                       Some t \<Rightarrow> t
                     | None \<Rightarrow> sumOfGroups (items rawData));
            missingSpans = totalRaw - sumOfGroups (items rawData)
        in case forEach_item rx (sortedRules rules) expansionFactor globalRate (items rawData) ([], 0) of
             Inl e \<Rightarrow> Inl e
           | Inr st \<Rightarrow>
               Inr (makeResult totalRaw
                      (addMissingSpans toLocaleString missingSpans expansionFactor globalRate st)
                      days))"

subsection \<open>The simulation, as the specification words it\<close>

text \<open>
  The rules whose operator is \<^verbatim>\<open>equals\<close>; the first rule of a list that matches a group;
  the sampling rate and the breakdown row that the specification gives to a group; the
  total raw count it resolves.
\<close>

definition isEquals :: "rule \<Rightarrow> bool" where
  "isEquals r = (operator r = Some ''equals'')"

definition spec_matched :: "regexp_engine \<Rightarrow> rule list \<Rightarrow> span_item \<Rightarrow> rule option" where
  "spec_matched rx srules item = find (\<lambda>r. matchesRule rx item r = Inr True) srules"

definition spec_samplingRate :: "regexp_engine \<Rightarrow> rule list \<Rightarrow> real \<Rightarrow> span_item \<Rightarrow> real" where
  "spec_samplingRate rx srules globalRate item =
     (case spec_matched rx srules item of None \<Rightarrow> globalRate | Some r \<Rightarrow> rate r / 100)"

definition spec_row :: "regexp_engine \<Rightarrow> rule list \<Rightarrow> real \<Rightarrow> real \<Rightarrow> span_item \<Rightarrow> breakdown_row" where
  "spec_row rx srules expansionFactor globalRate item =
     \<lparr>attrs = attrs item, count = count item,
      rawCount = itemCount item,
      simulatedCount = itemCount item * spec_samplingRate rx srules globalRate item * expansionFactor,
      samplingRate = spec_samplingRate rx srules globalRate item,
      matchedRule = ruleLabel (spec_matched rx srules item)\<rparr>"

definition resolvedTotal :: "raw_data \<Rightarrow> real" where
  "resolvedTotal rawData =
     (case totalCountFromMeta rawData of
        Some t \<Rightarrow> t
      | None \<Rightarrow> sumOfGroups (items rawData))"

text \<open>One rule is another with the rate raised: the same predicate, a rate not below.\<close>

definition rate_raised :: "rule \<Rightarrow> rule \<Rightarrow> bool" where
  "rate_raised a b =
     (attribute b = attribute a \<and> operator b = operator a \<and> rule_value b = rule_value a
      \<and> rate a \<le> rate b)"

subsection \<open>A runtime for the examples\<close>

text \<open>An engine that rejects the pattern of one open parenthesis and matches anything else.\<close>

definition example_engine :: regexp_engine where
  "example_engine pattern = (if pattern = ''('' then None else Some (\<lambda>s. True))"

definition example_format :: "real \<Rightarrow> string" where
  "example_format x = ''n''"

subsection \<open>The rule matcher: early exits\<close>

lemma switch_operator_returns: "\<exists>b. switch_operator rx opr s v = Inr b"
  by (cases "new_RegExp rx v") (auto simp: switch_operator_def)

lemma matchesRule_returns: "\<exists>b. matchesRule rx item rule = Inr b"
proof (cases "attribute rule")
  case None
  then show ?thesis by (auto simp: matchesRule_def)
next
  case a: (Some a)
  show ?thesis
  proof (cases "rule_value rule")
    case None
    with a show ?thesis by (auto simp: matchesRule_def)
  next
    case (Some v)
    with a show ?thesis
      by (auto simp: matchesRule_def Let_def switch_operator_returns)
  qed
qed

text \<open>
  C5. The matcher returns false when the rule's attribute is missing or empty, when
  the rule's value is missing or empty, or when the record has no value, or an empty
  value, for the rule's attribute.
\<close>

theorem matchesRule_early_exit:
  assumes "attribute rule = None \<or> attribute rule = Some []
           \<or> rule_value rule = None \<or> rule_value rule = Some []
           \<or> (\<exists>a. attribute rule = Some a \<and> (attrs item a = None \<or> attrs item a = Some []))"
  shows "matchesRule rx item rule = Inr False"
  using assms by (auto simp: matchesRule_def Let_def split: option.split)

theorem matchesRule_early_exit_witness:
  "matchesRule (\<lambda>p. None) \<lparr>attrs = [''span.op'' \<mapsto> ''db.query''], count = Some 5\<rparr>
     \<lparr>attribute = Some ''span.op'', operator = Some ''contains'', rule_value = Some [], rate = 10\<rparr>
   = Inr False
   \<and> matchesRule (\<lambda>p. None) \<lparr>attrs = [''span.op'' \<mapsto> ''db.query''], count = Some 5\<rparr>
     \<lparr>attribute = Some ''release'', operator = Some ''equals'', rule_value = Some ''v1'', rate = 10\<rparr>
   = Inr False"
proof -
  have a: "matchesRule (\<lambda>p. None) \<lparr>attrs = [''span.op'' \<mapsto> ''db.query''], count = Some 5\<rparr>
     \<lparr>attribute = Some ''span.op'', operator = Some ''contains'', rule_value = Some [], rate = 10\<rparr>
   = Inr False"
    by (rule matchesRule_early_exit) simp
  have b: "matchesRule (\<lambda>p. None) \<lparr>attrs = [''span.op'' \<mapsto> ''db.query''], count = Some 5\<rparr>
     \<lparr>attribute = Some ''release'', operator = Some ''equals'', rule_value = Some ''v1'', rate = 10\<rparr>
   = Inr False"
    by (rule matchesRule_early_exit) simp
  from a b show ?thesis by simp
qed

subsection \<open>The sort, the loops and the result\<close>

lemma compareRules_equals: "isEquals x \<Longrightarrow> compareRules x y \<le> 0"
  by (simp add: compareRules_def isEquals_def)

lemma compareRules_other:
  "\<not> isEquals x \<Longrightarrow> compareRules x y = (if isEquals y then 1 else 0)"
  by (simp add: compareRules_def isEquals_def)

lemma insert_by_equals: "isEquals x \<Longrightarrow> insert_by compareRules x ys = x # ys"
  by (cases ys) (simp_all add: compareRules_equals)

lemma insert_by_other:
  "\<not> isEquals x \<Longrightarrow>
   insert_by compareRules x (filter isEquals as @ filter (\<lambda>r. \<not> isEquals r) bs)
     = filter isEquals as @ x # filter (\<lambda>r. \<not> isEquals r) bs"
proof (induction as)
  case Nil
  show ?case
  proof (cases "filter (\<lambda>r. \<not> isEquals r) bs")
    case Nil
    then show ?thesis by simp
  next
    case (Cons b rest)
    then have "b \<in> set (filter (\<lambda>r. \<not> isEquals r) bs)" by simp
    then have "\<not> isEquals b" by simp
    with Nil.prems Cons show ?thesis by (simp add: compareRules_other)
  qed
next
  case (Cons a as)
  then show ?case by (simp add: compareRules_other)
qed

lemma sortedRules_partition:
  "sortedRules rules = filter isEquals rules @ filter (\<lambda>r. \<not> isEquals r) rules"
proof (induction rules)
  case Nil
  show ?case by (simp add: sortedRules_def array_sort_def)
next
  case (Cons x rules)
  have step: "sortedRules (x # rules) = insert_by compareRules x (sortedRules rules)"
    by (simp add: sortedRules_def array_sort_def)
  show ?case
  proof (cases "isEquals x")
    case True
    then show ?thesis by (simp add: step insert_by_equals Cons.IH)
  next
    case False
    then show ?thesis by (simp add: step Cons.IH insert_by_other)
  qed
qed

lemma firstMatch_find:
  "firstMatch rx item srules st =
     Inr (case find (\<lambda>r. matchesRule rx item r = Inr True) srules of
            None \<Rightarrow> st
          | Some r \<Rightarrow> (Some r, rate r / 100))"
proof (induction srules)
  case Nil
  show ?case by simp
next
  case (Cons r srules)
  obtain b where b: "matchesRule rx item r = Inr b"
    using matchesRule_returns by blast
  show ?case using Cons.IH by (cases b) (simp_all add: b)
qed

lemma processItem_row:
  "processItem rx srules ef gr st item =
     Inr (fst st @ [spec_row rx srules ef gr item],
          snd st + simulatedCount (spec_row rx srules ef gr item))"
  by (simp add: processItem_def firstMatch_find spec_row_def spec_samplingRate_def
        spec_matched_def Let_def split: option.split)

lemma forEach_item_rows:
  "forEach_item rx srules ef gr its st =
     Inr (fst st @ map (spec_row rx srules ef gr) its,
          snd st + sum_list (map (\<lambda>i. simulatedCount (spec_row rx srules ef gr i)) its))"
proof (induction its arbitrary: st)
  case Nil
  show ?case by simp
next
  case (Cons i its)
  show ?case by (simp add: processItem_row Cons.IH add.assoc)
qed

lemma foldl_add_itemCount:
  "foldl (\<lambda>sum item. sum + itemCount item) a its = a + sum_list (map itemCount its)"
  by (induction its arbitrary: a) (simp_all add: add.assoc)

lemma sumOfGroups_sum_list: "sumOfGroups its = sum_list (map itemCount its)"
  by (simp add: sumOfGroups_def foldl_add_itemCount)

lemma simulateSampling_nonempty:
  assumes "items rawData \<noteq> []"
  shows "simulateSampling rx fmt rawData rules ef gr days =
     Inr (makeResult (resolvedTotal rawData)
            (addMissingSpans fmt (resolvedTotal rawData - sumOfGroups (items rawData)) ef gr
               (map (spec_row rx (sortedRules rules) ef gr) (items rawData),
                sum_list (map (\<lambda>i. simulatedCount (spec_row rx (sortedRules rules) ef gr i))
                            (items rawData))))
            days)"
  using assms
  by (simp add: simulateSampling_def forEach_item_rows resolvedTotal_def Let_def)

lemma simulateSampling_fields:
  assumes "items rawData \<noteq> []"
  shows "\<exists>res. simulateSampling rx fmt rawData rules ef gr days = Inr res
     \<and> totalRawCount res = resolvedTotal rawData
     \<and> breakdown res =
         map (spec_row rx (sortedRules rules) ef gr) (items rawData)
         @ (if resolvedTotal rawData - sumOfGroups (items rawData) > 0
            then [otherRow fmt (resolvedTotal rawData - sumOfGroups (items rawData)) ef gr]
            else [])
     \<and> totalSimulatedCount res =
         sum_list (map (\<lambda>i. simulatedCount (spec_row rx (sortedRules rules) ef gr i)) (items rawData))
         + (if resolvedTotal rawData - sumOfGroups (items rawData) > 0
            then (resolvedTotal rawData - sumOfGroups (items rawData)) * gr * ef
            else 0)
     \<and> costReduction res =
         max 0 (if totalRawCount res > 0
                then ((totalRawCount res - totalSimulatedCount res) / totalRawCount res) * 100
                else 0)
     \<and> monthlyRawCount res = totalRawCount res * (30 / days)
     \<and> monthlySimulatedCount res = totalSimulatedCount res * (30 / days)"
  by (simp add: simulateSampling_nonempty [OF assms] makeResult_def addMissingSpans_def Let_def)

lemma simulateSampling_empty:
  "items rawData = [] \<Longrightarrow>
   simulateSampling rx fmt rawData rules ef gr days =
     Inr \<lparr>totalRawCount = 0, totalSimulatedCount = 0, breakdown = [], costReduction = 0,
          monthlyRawCount = 0, monthlySimulatedCount = 0\<rparr>"
  by (simp add: simulateSampling_def)

lemma simulateSampling_returns:
  "\<exists>res. simulateSampling rx fmt rawData rules ef gr days = Inr res"
proof (cases "items rawData = []")
  case True
  then show ?thesis by (simp add: simulateSampling_empty)
next
  case False
  then show ?thesis using simulateSampling_fields by blast
qed

lemma simulateSampling_row:
  assumes "i < length (items rawData)"
  shows "\<exists>res. simulateSampling rx fmt rawData rules ef gr days = Inr res
     \<and> breakdown res ! i = spec_row rx (sortedRules rules) ef gr (items rawData ! i)"
proof -
  from assms have ne: "items rawData \<noteq> []" by auto
  from simulateSampling_fields [OF ne, of rx fmt rules ef gr days] assms
  show ?thesis by (auto simp: nth_append)
qed

lemmas match_simps = matchesRule_def switch_operator_def str_trim_def isWhiteSpace_def
  str_toLowerCase_def toLowerChar_def Let_def char_of_def bit_0 new_RegExp_def
  example_engine_def str_endsWith_def

subsection \<open>Per-group simulation\<close>

text \<open>
  C1. The simulator returns a result whose breakdown starts with one row per group, in
  dataset order: the row of a group carries the rate of the first rule of the sorted
  list that matches it (that rule's rate divided by 100), or the global rate when no
  rule matches, and the simulated count \<open>count * samplingRate * expansionFactor\<close>;
  at most the row of the missing spans follows, and the total simulated count is the
  sum of the simulated counts of the rows.
\<close>

theorem simulateSampling_per_group:
  "\<exists>res. simulateSampling rx fmt rawData rules ef gr days = Inr res
     \<and> take (length (items rawData)) (breakdown res)
         = map (spec_row rx (sortedRules rules) ef gr) (items rawData)
     \<and> (length (breakdown res) = length (items rawData)
         \<or> length (breakdown res) = Suc (length (items rawData)))
     \<and> totalSimulatedCount res = sum_list (map simulatedCount (breakdown res))"
proof (cases "items rawData = []")
  case True
  then show ?thesis by (simp add: simulateSampling_empty)
next
  case False
  from simulateSampling_fields [OF False, of rx fmt rules ef gr days]
  obtain res where res: "simulateSampling rx fmt rawData rules ef gr days = Inr res"
    and bd: "breakdown res =
         map (spec_row rx (sortedRules rules) ef gr) (items rawData)
         @ (if resolvedTotal rawData - sumOfGroups (items rawData) > 0
            then [otherRow fmt (resolvedTotal rawData - sumOfGroups (items rawData)) ef gr]
            else [])"
    and ts: "totalSimulatedCount res =
         sum_list (map (\<lambda>i. simulatedCount (spec_row rx (sortedRules rules) ef gr i)) (items rawData))
         + (if resolvedTotal rawData - sumOfGroups (items rawData) > 0
            then (resolvedTotal rawData - sumOfGroups (items rawData)) * gr * ef
            else 0)"
    by blast
  have "take (length (items rawData)) (breakdown res)
         = map (spec_row rx (sortedRules rules) ef gr) (items rawData)"
    by (simp add: bd)
  moreover have "length (breakdown res) = length (items rawData)
         \<or> length (breakdown res) = Suc (length (items rawData))"
    by (simp add: bd)
  moreover have "totalSimulatedCount res = sum_list (map simulatedCount (breakdown res))"
    by (simp add: bd ts otherRow_def comp_def)
  ultimately show ?thesis using res by blast
qed

theorem simulateSampling_per_group_witness:
  "\<exists>res. simulateSampling example_engine example_format
       \<lparr>items = [\<lparr>attrs = [''span.op'' \<mapsto> ''http.server''], count = Some 1000\<rparr>,
                  \<lparr>attrs = [''span.op'' \<mapsto> ''db.query''], count = Some 500\<rparr>],
        totalCountFromMeta = None\<rparr>
       [\<lparr>attribute = Some ''span.op'', operator = Some ''equals'',
          rule_value = Some ''db.query'', rate = 10\<rparr>]
       1 1 30 = Inr res
     \<and> map samplingRate (breakdown res) = [1, 1 / 10]
     \<and> map simulatedCount (breakdown res) = [1000, 50]
     \<and> map matchedRule (breakdown res) = [''global'', ''span.op:db.query'']
     \<and> totalSimulatedCount res = 1050"
proof -
  let ?i1 = "\<lparr>attrs = [''span.op'' \<mapsto> ''http.server''], count = Some 1000\<rparr>"
  let ?i2 = "\<lparr>attrs = [''span.op'' \<mapsto> ''db.query''], count = Some 500\<rparr>"
  let ?r = "\<lparr>attribute = Some ''span.op'', operator = Some ''equals'',
          rule_value = Some ''db.query'', rate = 10\<rparr>"
  let ?d = "\<lparr>items = [?i1, ?i2], totalCountFromMeta = None\<rparr>"
  have m1: "matchesRule example_engine ?i1 ?r = Inr False"
    by (simp add: match_simps)
  have m2: "matchesRule example_engine ?i2 ?r = Inr True"
    by (simp add: match_simps)
  have s: "sortedRules [?r] = [?r]"
    by (simp add: sortedRules_def array_sort_def)
  have r1: "spec_row example_engine [?r] 1 1 ?i1 =
      \<lparr>attrs = attrs ?i1, count = Some 1000, rawCount = 1000, simulatedCount = 1000,
       samplingRate = 1, matchedRule = ''global''\<rparr>"
    by (simp add: spec_row_def spec_samplingRate_def spec_matched_def m1 itemCount_def
        ruleLabel_def)
  have r2: "spec_row example_engine [?r] 1 1 ?i2 =
      \<lparr>attrs = attrs ?i2, count = Some 500, rawCount = 500, simulatedCount = 50,
       samplingRate = 1 / 10, matchedRule = ''span.op:db.query''\<rparr>"
    by (simp add: spec_row_def spec_samplingRate_def spec_matched_def m2 itemCount_def
        ruleLabel_def template_str_def)
  from simulateSampling_per_group [of example_engine example_format ?d "[?r]" 1 1 30]
  obtain res where res: "simulateSampling example_engine example_format ?d [?r] 1 1 30 = Inr res"
    and tk: "take (length (items ?d)) (breakdown res)
         = map (spec_row example_engine (sortedRules [?r]) 1 1) (items ?d)"
    and ln: "length (breakdown res) = length (items ?d)
         \<or> length (breakdown res) = Suc (length (items ?d))"
    and ts: "totalSimulatedCount res = sum_list (map simulatedCount (breakdown res))"
    by blast
  have sm: "sumOfGroups (items ?d) = 1500"
    by (simp add: sumOfGroups_def itemCount_def)
  from simulateSampling_fields [of ?d example_engine example_format "[?r]" 1 1 30] res
  have bd: "breakdown res = map (spec_row example_engine (sortedRules [?r]) 1 1) (items ?d)"
    by (simp add: resolvedTotal_def)
  have bd2: "breakdown res = [spec_row example_engine [?r] 1 1 ?i1, spec_row example_engine [?r] 1 1 ?i2]"
    by (simp add: bd s)
  show ?thesis
    apply (rule exI [of _ res])
    apply (simp only: res ts)
    apply (simp add: bd2 r1 r2)
    done
qed

subsection \<open>Reconciliation with the declared total\<close>

text \<open>
  C3. For a non-empty dataset the total raw count is the declared total when there is
  one, and the sum of the group counts otherwise. With \<open>missing\<close> the total raw count
  minus the sum of the group counts: when \<open>missing > 0\<close>, exactly one row follows the
  rows of the groups, the row \<^verbatim>\<open>(other)\<close> with raw count \<open>missing\<close>, the global rate, the
  simulated count \<open>missing * globalRate * expansionFactor\<close> and the label \<^verbatim>\<open>global\<close>, and
  its simulated count is added to the total; otherwise no row is added and the total
  simulated count is that of the groups.
\<close>

theorem simulateSampling_reconciliation:
  assumes "items rawData \<noteq> []"
  shows "\<exists>res. simulateSampling rx fmt rawData rules ef gr days = Inr res
     \<and> totalRawCount res =
         (case totalCountFromMeta rawData of
            Some declared \<Rightarrow> declared
          | None \<Rightarrow> sum_list (map itemCount (items rawData)))
     \<and> (let n = length (items rawData);
             missing = totalRawCount res - sum_list (map itemCount (items rawData));
             groups = sum_list (map simulatedCount (take n (breakdown res)))
         in if missing > 0
            then length (breakdown res) = Suc n
               \<and> attrs (breakdown res ! n) ''span.op'' = Some ''(other)''
               \<and> rawCount (breakdown res ! n) = missing
               \<and> samplingRate (breakdown res ! n) = gr
               \<and> simulatedCount (breakdown res ! n) = missing * gr * ef
               \<and> matchedRule (breakdown res ! n) = ''global''
               \<and> totalSimulatedCount res = groups + missing * gr * ef
            else length (breakdown res) = n
               \<and> totalSimulatedCount res = groups)"
proof -
  from simulateSampling_fields [OF assms, of rx fmt rules ef gr days]
  obtain res where res: "simulateSampling rx fmt rawData rules ef gr days = Inr res"
    and tr: "totalRawCount res = resolvedTotal rawData"
    and bd: "breakdown res =
         map (spec_row rx (sortedRules rules) ef gr) (items rawData)
         @ (if resolvedTotal rawData - sumOfGroups (items rawData) > 0
            then [otherRow fmt (resolvedTotal rawData - sumOfGroups (items rawData)) ef gr]
            else [])"
    and ts: "totalSimulatedCount res =
         sum_list (map (\<lambda>i. simulatedCount (spec_row rx (sortedRules rules) ef gr i)) (items rawData))
         + (if resolvedTotal rawData - sumOfGroups (items rawData) > 0
            then (resolvedTotal rawData - sumOfGroups (items rawData)) * gr * ef
            else 0)"
    by blast
  have t: "totalRawCount res =
         (case totalCountFromMeta rawData of
            Some declared \<Rightarrow> declared
          | None \<Rightarrow> sum_list (map itemCount (items rawData)))"
    by (simp add: tr resolvedTotal_def sumOfGroups_sum_list split: option.split)
  have m: "resolvedTotal rawData - sumOfGroups (items rawData)
             = totalRawCount res - sum_list (map itemCount (items rawData))"
    by (simp add: tr sumOfGroups_sum_list)
  have rest: "(let n = length (items rawData);
             missing = totalRawCount res - sum_list (map itemCount (items rawData));
             groups = sum_list (map simulatedCount (take n (breakdown res)))
         in if missing > 0
            then length (breakdown res) = Suc n
               \<and> attrs (breakdown res ! n) ''span.op'' = Some ''(other)''
               \<and> rawCount (breakdown res ! n) = missing
               \<and> samplingRate (breakdown res ! n) = gr
               \<and> simulatedCount (breakdown res ! n) = missing * gr * ef
               \<and> matchedRule (breakdown res ! n) = ''global''
               \<and> totalSimulatedCount res = groups + missing * gr * ef
            else length (breakdown res) = n
               \<and> totalSimulatedCount res = groups)"
    unfolding bd ts m
    by (simp add: Let_def nth_append otherRow_def comp_def)
  from res t rest show ?thesis by blast
qed

theorem simulateSampling_reconciliation_witness:
  "\<exists>res. simulateSampling example_engine example_format
       \<lparr>items = [\<lparr>attrs = [''span.op'' \<mapsto> ''http.server''], count = Some 700\<rparr>],
        totalCountFromMeta = Some 1000\<rparr> [] 1 (1 / 2) 30 = Inr res
     \<and> totalRawCount res = 1000
     \<and> length (breakdown res) = 2
     \<and> rawCount (breakdown res ! 1) = 300
     \<and> simulatedCount (breakdown res ! 1) = 150
     \<and> matchedRule (breakdown res ! 1) = ''global''"
proof -
  let ?d = "\<lparr>items = [\<lparr>attrs = [''span.op'' \<mapsto> ''http.server''], count = Some 700\<rparr>],
        totalCountFromMeta = Some 1000\<rparr>"
  have ne: "items ?d \<noteq> []" by simp
  from simulateSampling_reconciliation [OF ne, of example_engine example_format "[]" 1 "1 / 2" 30]
  show ?thesis
    by (auto simp: Let_def itemCount_def)
qed


subsection \<open>Cost reduction\<close>

text \<open>
  C4. For a non-empty dataset the cost reduction is
  \<open>max 0 ((totalRawCount - totalSimulatedCount) / totalRawCount * 100)\<close> when the total raw
  count is positive and 0 otherwise; it is never negative.
\<close>

theorem costReduction_clamped:
  assumes "items rawData \<noteq> []"
  shows "\<exists>res. simulateSampling rx fmt rawData rules ef gr days = Inr res
     \<and> costReduction res =
         (if totalRawCount res > 0
          then max 0 ((totalRawCount res - totalSimulatedCount res) / totalRawCount res * 100)
          else 0)
     \<and> 0 \<le> costReduction res"
proof -
  from simulateSampling_fields [OF assms, of rx fmt rules ef gr days]
  obtain res where res: "simulateSampling rx fmt rawData rules ef gr days = Inr res"
    and cr: "costReduction res =
         max 0 (if totalRawCount res > 0
                then ((totalRawCount res - totalSimulatedCount res) / totalRawCount res) * 100
                else 0)"
    by blast
  have "costReduction res =
         (if totalRawCount res > 0
          then max 0 ((totalRawCount res - totalSimulatedCount res) / totalRawCount res * 100)
          else 0)"
    by (simp add: cr)
  moreover have "0 \<le> costReduction res"
    by (simp add: cr)
  ultimately show ?thesis using res by blast
qed

theorem costReduction_clamped_witness:
  "\<exists>res. simulateSampling example_engine example_format
       \<lparr>items = [\<lparr>attrs = [''span.op'' \<mapsto> ''http.server''], count = Some 100\<rparr>],
        totalCountFromMeta = None\<rparr> [] 5 1 30 = Inr res
     \<and> totalRawCount res = 100
     \<and> totalSimulatedCount res = 500
     \<and> costReduction res = 0"
proof -
  let ?d = "\<lparr>items = [\<lparr>attrs = [''span.op'' \<mapsto> ''http.server''], count = Some 100\<rparr>],
        totalCountFromMeta = None\<rparr>"
  have ne: "items ?d \<noteq> []" by simp
  from costReduction_clamped [OF ne, of example_engine example_format "[]" 5 1 30]
  obtain res where res: "simulateSampling example_engine example_format ?d [] 5 1 30 = Inr res"
    and cr: "costReduction res =
         (if totalRawCount res > 0
          then max 0 ((totalRawCount res - totalSimulatedCount res) / totalRawCount res * 100)
          else 0)"
    by blast
  from simulateSampling_fields [OF ne, of example_engine example_format "[]" 5 1 30] res
  have tr: "totalRawCount res = 100" and ts: "totalSimulatedCount res = 500"
    by (simp_all add: resolvedTotal_def sumOfGroups_def itemCount_def spec_row_def
        spec_samplingRate_def spec_matched_def sortedRules_def array_sort_def)
  from cr have "costReduction res = 0" by (simp add: tr ts)
  with res tr ts show ?thesis by blast
qed

subsection \<open>Monthly projection\<close>

text \<open>
  C7. For a positive number of days, the monthly raw count is the total raw count
  times \<open>30 / days\<close>, and the monthly simulated count is the total simulated count times
  \<open>30 / days\<close>.
\<close>

theorem monthly_projection:
  assumes "0 < days"
  shows "\<exists>res. simulateSampling rx fmt rawData rules ef gr days = Inr res
     \<and> monthlyRawCount res = totalRawCount res * (30 / days)
     \<and> monthlySimulatedCount res = totalSimulatedCount res * (30 / days)"
proof (cases "items rawData = []")
  case True
  then show ?thesis by (simp add: simulateSampling_empty)
next
  case False
  from simulateSampling_fields [OF False, of rx fmt rules ef gr days]
  show ?thesis by blast
qed

theorem monthly_projection_witness:
  "\<exists>res. simulateSampling example_engine example_format
       \<lparr>items = [\<lparr>attrs = [''span.op'' \<mapsto> ''http.server''], count = Some 700\<rparr>],
        totalCountFromMeta = None\<rparr> [] 1 1 7 = Inr res
     \<and> totalRawCount res = 700
     \<and> monthlyRawCount res = 3000"
proof -
  let ?d = "\<lparr>items = [\<lparr>attrs = [''span.op'' \<mapsto> ''http.server''], count = Some 700\<rparr>],
        totalCountFromMeta = None\<rparr>"
  have ne: "items ?d \<noteq> []" by simp
  have pos: "(0::real) < 7" by simp
  from monthly_projection [OF pos, of example_engine example_format ?d "[]" 1 1]
  obtain res where res: "simulateSampling example_engine example_format ?d [] 1 1 7 = Inr res"
    and mr: "monthlyRawCount res = totalRawCount res * (30 / 7)"
    by blast
  from simulateSampling_fields [OF ne, of example_engine example_format "[]" 1 1 7] res
  have tr: "totalRawCount res = 700"
    by (simp add: resolvedTotal_def sumOfGroups_def itemCount_def)
  from mr have "monthlyRawCount res = 3000" by (simp add: tr)
  with res tr show ?thesis by blast
qed

subsection \<open>The empty dataset\<close>

text \<open>
  C8. On a dataset with no group and no declared total, the result has every count,
  the cost reduction and both monthly projections equal to zero, and an empty breakdown.
\<close>

theorem empty_dataset_all_zero:
  "simulateSampling rx fmt \<lparr>items = [], totalCountFromMeta = None\<rparr> rules ef gr days =
     Inr \<lparr>totalRawCount = 0, totalSimulatedCount = 0, breakdown = [], costReduction = 0,
          monthlyRawCount = 0, monthlySimulatedCount = 0\<rparr>"
  by (simp add: simulateSampling_def)

theorem empty_dataset_all_zero_witness:
  "simulateSampling example_engine example_format \<lparr>items = [], totalCountFromMeta = None\<rparr>
     [\<lparr>attribute = Some ''span.op'', operator = Some ''equals'',
        rule_value = Some ''db.query'', rate = 10\<rparr>] 2 (1 / 2) 7 =
     Inr \<lparr>totalRawCount = 0, totalSimulatedCount = 0, breakdown = [], costReduction = 0,
          monthlyRawCount = 0, monthlySimulatedCount = 0\<rparr>"
  by (rule empty_dataset_all_zero)

subsection \<open>Rule order\<close>

lemma find_append_first:
  "find P (xs @ ys) = (case find P xs of None \<Rightarrow> find P ys | Some x \<Rightarrow> Some x)"
  by (induction xs) simp_all

lemma find_filter_conj: "find P (filter Q xs) = find (\<lambda>x. Q x \<and> P x) xs"
  by (induction xs) simp_all

lemma find_in_set: "find P xs = Some x \<Longrightarrow> x \<in> set xs \<and> P x"
  by (induction xs) (auto split: if_splits)

lemma spec_matched_sortedRules:
  "spec_matched rx (sortedRules rules) item =
     (case find (\<lambda>r. isEquals r \<and> matchesRule rx item r = Inr True) rules of
        None \<Rightarrow> find (\<lambda>r. \<not> isEquals r \<and> matchesRule rx item r = Inr True) rules
      | Some r \<Rightarrow> Some r)"
  unfolding spec_matched_def sortedRules_partition find_append_first find_filter_conj
  by (rule refl)

text \<open>
  C2. The sorted rule list is the rules whose operator is \<^verbatim>\<open>equals\<close>, in their original
  order, followed by the other rules, in their original order. Hence a group that an
  \<^verbatim>\<open>equals\<close> rule matches gets the rate and the label of an \<^verbatim>\<open>equals\<close> rule, the first
  one of the given list that matches it, wherever the other rules stand in the list.
\<close>

theorem equals_rules_take_precedence:
  "sortedRules rules = filter isEquals rules @ filter (\<lambda>r. \<not> isEquals r) rules
   \<and> (i < length (items rawData) \<and> e \<in> set rules \<and> operator e = Some ''equals''
        \<and> matchesRule rx (items rawData ! i) e = Inr True
      \<longrightarrow> (\<exists>res r. simulateSampling rx fmt rawData rules ef gr days = Inr res
             \<and> find (\<lambda>r. operator r = Some ''equals''
                          \<and> matchesRule rx (items rawData ! i) r = Inr True) rules = Some r
             \<and> samplingRate (breakdown res ! i) = rate r / 100
             \<and> matchedRule (breakdown res ! i) = ruleLabel (Some r)))"
proof (intro conjI impI)
  show "sortedRules rules = filter isEquals rules @ filter (\<lambda>r. \<not> isEquals r) rules"
    by (rule sortedRules_partition)
next
  let ?item = "items rawData ! i"
  let ?P = "\<lambda>r. isEquals r \<and> matchesRule rx ?item r = Inr True"
  assume a: "i < length (items rawData) \<and> e \<in> set rules \<and> operator e = Some ''equals''
        \<and> matchesRule rx (items rawData ! i) e = Inr True"
  then have "\<exists>x. x \<in> set rules \<and> ?P x"
    by (auto simp: isEquals_def)
  then have "find ?P rules \<noteq> None"
    by (simp only: find_None_iff not_not)
  then obtain r where r: "find ?P rules = Some r" by blast
  then have sm: "spec_matched rx (sortedRules rules) ?item = Some r"
    by (simp add: spec_matched_sortedRules)
  from a have "i < length (items rawData)" by simp
  from simulateSampling_row [OF this, of rx fmt rules ef gr days]
  obtain res where res: "simulateSampling rx fmt rawData rules ef gr days = Inr res"
    and row: "breakdown res ! i = spec_row rx (sortedRules rules) ef gr ?item"
    by blast
  have "samplingRate (breakdown res ! i) = rate r / 100"
    by (simp add: row spec_row_def spec_samplingRate_def sm)
  moreover have "matchedRule (breakdown res ! i) = ruleLabel (Some r)"
    by (simp add: row spec_row_def sm)
  moreover from r have "find (\<lambda>r. operator r = Some ''equals''
                          \<and> matchesRule rx ?item r = Inr True) rules = Some r"
    by (simp add: isEquals_def)
  ultimately show "\<exists>res r. simulateSampling rx fmt rawData rules ef gr days = Inr res
             \<and> find (\<lambda>r. operator r = Some ''equals''
                          \<and> matchesRule rx (items rawData ! i) r = Inr True) rules = Some r
             \<and> samplingRate (breakdown res ! i) = rate r / 100
             \<and> matchedRule (breakdown res ! i) = ruleLabel (Some r)"
    using res by blast
qed

theorem equals_rules_take_precedence_witness:
  "sortedRules
     [\<lparr>attribute = Some ''span.op'', operator = Some ''contains'', rule_value = Some ''db'', rate = 50\<rparr>,
      \<lparr>attribute = Some ''span.op'', operator = Some ''equals'', rule_value = Some ''db.query'', rate = 10\<rparr>]
   = [\<lparr>attribute = Some ''span.op'', operator = Some ''equals'', rule_value = Some ''db.query'', rate = 10\<rparr>,
      \<lparr>attribute = Some ''span.op'', operator = Some ''contains'', rule_value = Some ''db'', rate = 50\<rparr>]
   \<and> (\<exists>res. simulateSampling example_engine example_format
         \<lparr>items = [\<lparr>attrs = [''span.op'' \<mapsto> ''db.query''], count = Some 500\<rparr>],
          totalCountFromMeta = None\<rparr>
         [\<lparr>attribute = Some ''span.op'', operator = Some ''contains'', rule_value = Some ''db'', rate = 50\<rparr>,
          \<lparr>attribute = Some ''span.op'', operator = Some ''equals'', rule_value = Some ''db.query'', rate = 10\<rparr>]
         1 1 30 = Inr res
       \<and> samplingRate (breakdown res ! 0) = 1 / 10
       \<and> matchedRule (breakdown res ! 0) = ''span.op:db.query'')"
proof -
  let ?c = "\<lparr>attribute = Some ''span.op'', operator = Some ''contains'', rule_value = Some ''db'', rate = 50\<rparr>"
  let ?e = "\<lparr>attribute = Some ''span.op'', operator = Some ''equals'', rule_value = Some ''db.query'', rate = 10\<rparr>"
  let ?i = "\<lparr>attrs = [''span.op'' \<mapsto> ''db.query''], count = Some 500\<rparr>"
  let ?d = "\<lparr>items = [?i], totalCountFromMeta = None\<rparr>"
  have mc: "matchesRule example_engine ?i ?c = Inr True"
    by (simp add: match_simps)
  have me: "matchesRule example_engine ?i ?e = Inr True"
    by (simp add: match_simps)
  have me': "matchesRule example_engine (items ?d ! 0) ?e = Inr True"
    using me by simp
  have fe: "find (\<lambda>r. operator r = Some ''equals''
               \<and> matchesRule example_engine (items ?d ! 0) r = Inr True) [?c, ?e] = Some ?e"
    using me by simp
  note t = equals_rules_take_precedence [of "[?c, ?e]" 0 ?d ?e example_engine example_format 1 1 30]
  from t have s: "sortedRules [?c, ?e] = [?e, ?c]"
    by (simp add: isEquals_def)
  from t me' obtain res r
    where res: "simulateSampling example_engine example_format ?d [?c, ?e] 1 1 30 = Inr res"
      and f: "find (\<lambda>r. operator r = Some ''equals''
               \<and> matchesRule example_engine (items ?d ! 0) r = Inr True) [?c, ?e] = Some r"
      and sr: "samplingRate (breakdown res ! 0) = rate r / 100"
      and mr: "matchedRule (breakdown res ! 0) = ruleLabel (Some r)"
    by auto
  from f fe have r: "r = ?e" by simp
  have "samplingRate (breakdown res ! 0) = 1 / 10"
    by (simp add: sr r)
  moreover have "matchedRule (breakdown res ! 0) = ''span.op:db.query''"
    by (simp add: mr r ruleLabel_def template_str_def)
  ultimately show ?thesis using s res by blast
qed

subsection \<open>Invalid regular expressions\<close>

lemma find_skip: "\<not> P r \<Longrightarrow> find P (xs @ r # ys) = find P (xs @ ys)"
  by (induction xs) simp_all

lemma spec_row_cong:
  "spec_matched rx srules item = spec_matched rx srules' item \<Longrightarrow>
   spec_row rx srules ef gr item = spec_row rx srules' ef gr item"
  by (simp add: spec_row_def spec_samplingRate_def)

lemma simulateSampling_cong:
  assumes "\<And>item. item \<in> set (items rawData) \<Longrightarrow>
     spec_matched rx (sortedRules rules) item = spec_matched rx (sortedRules rules') item"
  shows "simulateSampling rx fmt rawData rules ef gr days
     = simulateSampling rx fmt rawData rules' ef gr days"
proof (cases "items rawData = []")
  case True
  then show ?thesis by (simp add: simulateSampling_empty)
next
  case False
  have row: "spec_row rx (sortedRules rules) ef gr i = spec_row rx (sortedRules rules') ef gr i"
    if "i \<in> set (items rawData)" for i
    using assms [OF that] by (rule spec_row_cong)
  have "map (spec_row rx (sortedRules rules) ef gr) (items rawData)
      = map (spec_row rx (sortedRules rules') ef gr) (items rawData)"
    by (rule map_cong [OF refl]) (rule row)
  moreover have "map (\<lambda>i. simulatedCount (spec_row rx (sortedRules rules) ef gr i)) (items rawData)
      = map (\<lambda>i. simulatedCount (spec_row rx (sortedRules rules') ef gr i)) (items rawData)"
    by (rule map_cong [OF refl]) (simp only: row)
  ultimately show ?thesis
    by (simp only: simulateSampling_nonempty [OF False])
qed

lemma set_sortedRules: "set (sortedRules rules) = set rules"
  by (auto simp: sortedRules_partition)

lemma spec_matched_exists:
  assumes "r \<in> set rules" "matchesRule rx item r = Inr True"
  shows "\<exists>r'. spec_matched rx (sortedRules rules) item = Some r' \<and> r' \<in> set rules
            \<and> matchesRule rx item r' = Inr True"
proof -
  let ?P = "\<lambda>r. matchesRule rx item r = Inr True"
  from assms have "\<exists>x. x \<in> set (sortedRules rules) \<and> ?P x"
    by (auto simp: set_sortedRules)
  then have "find ?P (sortedRules rules) \<noteq> None"
    by (simp only: find_None_iff not_not)
  then obtain r' where r': "find ?P (sortedRules rules) = Some r'" by blast
  from find_in_set [OF r'] have "r' \<in> set rules \<and> ?P r'"
    by (simp add: set_sortedRules)
  with r' show ?thesis by (simp add: spec_matched_def)
qed

lemma matchesRule_invalid_regex:
  assumes "operator r = Some ''regex''" "rule_value r = Some v" "rx (str_trim v) = None"
  shows "matchesRule rx item r = Inr False"
proof (cases "attribute r")
  case None
  then show ?thesis by (simp add: matchesRule_def)
next
  case (Some a)
  with assms show ?thesis
    by (simp add: matchesRule_def switch_operator_def new_RegExp_def Let_def)
qed

text \<open>
  C6. A rule with the operator \<^verbatim>\<open>regex\<close> whose trimmed value the engine rejects matches
  no record: the matcher returns false, not an exception. The simulator returns a
  result with such a rule in the list, and it is the result for the list without the
  rule: the other rules and all the groups are evaluated as if the rule were absent.
\<close>

theorem invalid_regex_is_no_match:
  assumes "operator r = Some ''regex''" "rule_value r = Some v" "rx (str_trim v) = None"
  shows "matchesRule rx item r = Inr False
     \<and> (\<exists>res. simulateSampling rx fmt rawData (rs1 @ r # rs2) ef gr days = Inr res
             \<and> simulateSampling rx fmt rawData (rs1 @ rs2) ef gr days = Inr res)"
proof -
  have nm: "matchesRule rx it r = Inr False" for it
    using assms by (rule matchesRule_invalid_regex)
  have f1: "find (\<lambda>r. isEquals r \<and> matchesRule rx it r = Inr True) (rs1 @ r # rs2)
      = find (\<lambda>r. isEquals r \<and> matchesRule rx it r = Inr True) (rs1 @ rs2)" for it
    by (rule find_skip) (simp add: nm)
  have f2: "find (\<lambda>r. \<not> isEquals r \<and> matchesRule rx it r = Inr True) (rs1 @ r # rs2)
      = find (\<lambda>r. \<not> isEquals r \<and> matchesRule rx it r = Inr True) (rs1 @ rs2)" for it
    by (rule find_skip) (simp add: nm)
  have sm: "spec_matched rx (sortedRules (rs1 @ r # rs2)) it
      = spec_matched rx (sortedRules (rs1 @ rs2)) it" for it
    unfolding spec_matched_sortedRules f1 f2 by (rule refl)
  have "simulateSampling rx fmt rawData (rs1 @ r # rs2) ef gr days
      = simulateSampling rx fmt rawData (rs1 @ rs2) ef gr days"
    by (rule simulateSampling_cong) (rule sm)
  moreover obtain res where "simulateSampling rx fmt rawData (rs1 @ r # rs2) ef gr days = Inr res"
    using simulateSampling_returns by blast
  ultimately have "simulateSampling rx fmt rawData (rs1 @ rs2) ef gr days = Inr res"
    by simp
  with \<open>simulateSampling rx fmt rawData (rs1 @ r # rs2) ef gr days = Inr res\<close> nm
  show ?thesis by blast
qed

theorem invalid_regex_is_no_match_witness:
  "matchesRule example_engine \<lparr>attrs = [''span.op'' \<mapsto> ''db.query''], count = Some 500\<rparr>
     \<lparr>attribute = Some ''span.op'', operator = Some ''regex'', rule_value = Some ''('', rate = 0\<rparr>
     = Inr False
   \<and> (\<exists>res. simulateSampling example_engine example_format
         \<lparr>items = [\<lparr>attrs = [''span.op'' \<mapsto> ''db.query''], count = Some 500\<rparr>],
          totalCountFromMeta = None\<rparr>
         [\<lparr>attribute = Some ''span.op'', operator = Some ''regex'', rule_value = Some ''('', rate = 0\<rparr>,
          \<lparr>attribute = Some ''span.op'', operator = Some ''contains'', rule_value = Some ''db'', rate = 50\<rparr>]
         1 1 30 = Inr res
       \<and> samplingRate (breakdown res ! 0) = 1 / 2)"
proof -
  let ?bad = "\<lparr>attribute = Some ''span.op'', operator = Some ''regex'', rule_value = Some ''('', rate = 0\<rparr>"
  let ?c = "\<lparr>attribute = Some ''span.op'', operator = Some ''contains'', rule_value = Some ''db'', rate = 50\<rparr>"
  let ?i = "\<lparr>attrs = [''span.op'' \<mapsto> ''db.query''], count = Some 500\<rparr>"
  let ?d = "\<lparr>items = [?i], totalCountFromMeta = None\<rparr>"
  have h1: "operator ?bad = Some ''regex''" by simp
  have h2: "rule_value ?bad = Some ''(''" by simp
  have h3: "example_engine (str_trim ''('') = None"
    by (simp add: example_engine_def str_trim_def isWhiteSpace_def)
  note t = invalid_regex_is_no_match
    [of ?bad "''(''" example_engine ?i example_format ?d "[]" "[?c]" 1 1 30]
  note t' = t [OF h1 h2 h3, unfolded append_Nil]
  from t' have m: "matchesRule example_engine ?i ?bad = Inr False"
    by (rule conjunct1)
  from t' obtain res
    where res: "simulateSampling example_engine example_format ?d [?bad, ?c] 1 1 30 = Inr res"
      and res': "simulateSampling example_engine example_format ?d [?c] 1 1 30 = Inr res"
    by blast
  have mc: "matchesRule example_engine ?i ?c = Inr True"
    by (simp add: match_simps)
  have s: "sortedRules [?c] = [?c]"
    by (simp add: sortedRules_def array_sort_def)
  have "0 < length (items ?d)" by simp
  from simulateSampling_row [OF this, of example_engine example_format "[?c]" 1 1 30] res'
  have row: "breakdown res ! 0 = spec_row example_engine (sortedRules [?c]) 1 1 ?i"
    by simp
  have "samplingRate (breakdown res ! 0) = 1 / 2"
    by (simp add: row s spec_row_def spec_samplingRate_def spec_matched_def mc)
  with m res show ?thesis by blast
qed

subsection \<open>Rule values of white space\<close>

lemma str_trim_whitespace:
  assumes "\<forall>c\<in>set v. isWhiteSpace c"
  shows "str_trim v = []"
proof -
  from assms have d: "dropWhile isWhiteSpace v = []" by simp
  show ?thesis unfolding str_trim_def d by simp
qed

lemma str_includes_empty: "str_includes s [] = True"
  by (cases s) simp_all

lemma switch_operator_fallback:
  assumes "opr \<noteq> ''equals''" "opr \<noteq> ''starts_with''" "opr \<noteq> ''ends_with''" "opr \<noteq> ''regex''"
  shows "switch_operator rx opr s v = Inr (str_includes (str_toLowerCase s) (str_toLowerCase v))"
  using assms by (simp add: switch_operator_def)

lemma matchesRule_switch:
  assumes "attribute r = Some a" "a \<noteq> []" "rule_value r = Some v" "v \<noteq> []"
    "attrs item a = Some s" "s \<noteq> []"
  shows "matchesRule rx item r =
     switch_operator rx
       (case operator r of None \<Rightarrow> ''contains'' | Some opr \<Rightarrow> if opr = [] then ''contains'' else opr)
       s (str_trim v)"
  using assms by (simp add: matchesRule_def)

text \<open>
  C10. A rule with a non-empty attribute, a non-empty value of white space only and
  the operator \<^verbatim>\<open>contains\<close> (or any operator that is not \<^verbatim>\<open>equals\<close>, \<^verbatim>\<open>starts_with\<close>,
  \<^verbatim>\<open>ends_with\<close> or \<^verbatim>\<open>regex\<close>, or none) matches every record whose value for the attribute
  is non-empty: the early exit tests the untrimmed value, the comparison uses the
  trimmed one. With such a rule in the list, a group with the attribute present gets
  the rate of a rule, not the global rate.
\<close>

theorem whitespace_value_matches_every_record:
  assumes "attribute r = Some a" "a \<noteq> []" "rule_value r = Some v" "v \<noteq> []"
    "\<forall>c\<in>set v. isWhiteSpace c"
    "operator r \<noteq> Some ''equals''" "operator r \<noteq> Some ''starts_with''"
    "operator r \<noteq> Some ''ends_with''" "operator r \<noteq> Some ''regex''"
    "attrs item a = Some s" "s \<noteq> []"
  shows "matchesRule rx item r = Inr True
     \<and> (r \<in> set rules \<and> i < length (items rawData) \<and> items rawData ! i = item
        \<longrightarrow> (\<exists>res r'. simulateSampling rx fmt rawData rules ef gr days = Inr res
               \<and> r' \<in> set rules
               \<and> matchesRule rx item r' = Inr True
               \<and> samplingRate (breakdown res ! i) = rate r' / 100
               \<and> matchedRule (breakdown res ! i) = ruleLabel (Some r')))"
proof (intro conjI impI)
  let ?opr = "case operator r of None \<Rightarrow> ''contains''
              | Some opr \<Rightarrow> if opr = [] then ''contains'' else opr"
  have o: "?opr \<noteq> ''equals''" "?opr \<noteq> ''starts_with''" "?opr \<noteq> ''ends_with''" "?opr \<noteq> ''regex''"
    using assms(6-9) by (cases "operator r"; simp)+
  have "matchesRule rx item r = switch_operator rx ?opr s (str_trim v)"
    using assms(1-4,10,11) by (rule matchesRule_switch)
  also have "\<dots> = Inr (str_includes (str_toLowerCase s) (str_toLowerCase (str_trim v)))"
    using o by (rule switch_operator_fallback)
  also have "\<dots> = Inr True"
    by (simp add: str_trim_whitespace [OF assms(5)] str_toLowerCase_def str_includes_empty)
  finally show m: "matchesRule rx item r = Inr True" .
  assume a: "r \<in> set rules \<and> i < length (items rawData) \<and> items rawData ! i = item"
  then have "r \<in> set rules" by simp
  from spec_matched_exists [OF this m]
  obtain r' where sm: "spec_matched rx (sortedRules rules) item = Some r'"
    and r': "r' \<in> set rules" "matchesRule rx item r' = Inr True"
    by blast
  from a have "i < length (items rawData)" by simp
  from simulateSampling_row [OF this, of rx fmt rules ef gr days] a
  obtain res where res: "simulateSampling rx fmt rawData rules ef gr days = Inr res"
    and row: "breakdown res ! i = spec_row rx (sortedRules rules) ef gr item"
    by auto
  have "samplingRate (breakdown res ! i) = rate r' / 100"
    by (simp add: row spec_row_def spec_samplingRate_def sm)
  moreover have "matchedRule (breakdown res ! i) = ruleLabel (Some r')"
    by (simp add: row spec_row_def sm)
  ultimately show "\<exists>res r'. simulateSampling rx fmt rawData rules ef gr days = Inr res
               \<and> r' \<in> set rules
               \<and> matchesRule rx item r' = Inr True
               \<and> samplingRate (breakdown res ! i) = rate r' / 100
               \<and> matchedRule (breakdown res ! i) = ruleLabel (Some r')"
    using res r' by blast
qed


theorem whitespace_value_matches_every_record_witness:
  "matchesRule example_engine \<lparr>attrs = [''span.op'' \<mapsto> ''db.query''], count = Some 500\<rparr>
     \<lparr>attribute = Some ''span.op'', operator = Some ''contains'', rule_value = Some ''  '', rate = 25\<rparr>
     = Inr True
   \<and> (\<exists>res. simulateSampling example_engine example_format
         \<lparr>items = [\<lparr>attrs = [''span.op'' \<mapsto> ''db.query''], count = Some 500\<rparr>],
          totalCountFromMeta = None\<rparr>
         [\<lparr>attribute = Some ''span.op'', operator = Some ''contains'', rule_value = Some ''  '', rate = 25\<rparr>]
         1 1 30 = Inr res
       \<and> samplingRate (breakdown res ! 0) = 1 / 4
       \<and> matchedRule (breakdown res ! 0) = ''span.op:  '')"
proof -
  let ?w = "\<lparr>attribute = Some ''span.op'', operator = Some ''contains'', rule_value = Some ''  '', rate = 25\<rparr>"
  let ?i = "\<lparr>attrs = [''span.op'' \<mapsto> ''db.query''], count = Some 500\<rparr>"
  let ?d = "\<lparr>items = [?i], totalCountFromMeta = None\<rparr>"
  have h1: "attribute ?w = Some ''span.op''" by simp
  have h2: "''span.op'' \<noteq> []" by simp
  have h3: "rule_value ?w = Some ''  ''" by simp
  have h4: "''  '' \<noteq> []" by simp
  have h5: "\<forall>c\<in>set ''  ''. isWhiteSpace c" by (simp add: isWhiteSpace_def)
  have h6: "operator ?w \<noteq> Some ''equals''" by simp
  have h7: "operator ?w \<noteq> Some ''starts_with''" by simp
  have h8: "operator ?w \<noteq> Some ''ends_with''" by simp
  have h9: "operator ?w \<noteq> Some ''regex''" by simp
  have h10: "attrs ?i ''span.op'' = Some ''db.query''" by simp
  have h11: "''db.query'' \<noteq> []" by simp
  note t = whitespace_value_matches_every_record
    [of ?w "''span.op''" "''  ''" ?i "''db.query''" example_engine "[?w]" 0 ?d example_format 1 1 30]
  note t' = t [OF h1 h2 h3 h4 h5 h6 h7 h8 h9 h10 h11]
  from t' have m: "matchesRule example_engine ?i ?w = Inr True"
    by (rule conjunct1)
  have p: "?w \<in> set [?w] \<and> 0 < length (items ?d) \<and> items ?d ! 0 = ?i" by simp
  from t' [THEN conjunct2, rule_format, OF p]
  obtain res r' where res: "simulateSampling example_engine example_format ?d [?w] 1 1 30 = Inr res"
    and r': "r' \<in> set [?w]"
    and sr: "samplingRate (breakdown res ! 0) = rate r' / 100"
    and mr: "matchedRule (breakdown res ! 0) = ruleLabel (Some r')"
    by blast
  from r' have r: "r' = ?w" by simp
  have "samplingRate (breakdown res ! 0) = 1 / 4"
    by (simp add: sr r)
  moreover have "matchedRule (breakdown res ! 0) = ''span.op:  ''"
    by (simp add: mr r ruleLabel_def template_str_def)
  ultimately show ?thesis using m res by blast
qed

subsection \<open>Raising a rate\<close>

lemma rate_raised_matchesRule:
  assumes "rate_raised a b"
  shows "matchesRule rx item b = matchesRule rx item a"
proof -
  from assms have f: "attribute b = attribute a" "operator b = operator a"
    "rule_value b = rule_value a"
    by (simp_all add: rate_raised_def)
  show ?thesis unfolding matchesRule_def f by (rule refl)
qed

lemma rate_raised_isEquals: "rate_raised a b \<Longrightarrow> isEquals b = isEquals a"
  by (simp add: rate_raised_def isEquals_def)

lemma list_all2_filter_same:
  assumes "list_all2 R xs ys" "\<And>a b. R a b \<Longrightarrow> P a = Q b"
  shows "list_all2 R (filter P xs) (filter Q ys)"
  using assms(1)
proof (induction rule: list_all2_induct)
  case Nil
  show ?case by simp
next
  case (Cons x xs y ys)
  from assms(2) [OF Cons.hyps(1)] Cons.hyps(1) Cons.IH show ?case by simp
qed

lemma rate_raised_sortedRules:
  assumes "list_all2 rate_raised xs ys"
  shows "list_all2 rate_raised (sortedRules xs) (sortedRules ys)"
proof -
  have "list_all2 rate_raised (filter isEquals xs) (filter isEquals ys)"
    using assms by (rule list_all2_filter_same) (simp add: rate_raised_isEquals)
  moreover have "list_all2 rate_raised (filter (\<lambda>r. \<not> isEquals r) xs)
                   (filter (\<lambda>r. \<not> isEquals r) ys)"
    using assms by (rule list_all2_filter_same) (simp add: rate_raised_isEquals)
  ultimately show ?thesis
    unfolding sortedRules_partition by (rule list_all2_appendI)
qed

lemma rate_raised_find:
  assumes "list_all2 rate_raised xs ys"
  shows "rel_option rate_raised
           (find (\<lambda>r. matchesRule rx item r = Inr True) xs)
           (find (\<lambda>r. matchesRule rx item r = Inr True) ys)"
  using assms
proof (induction rule: list_all2_induct)
  case Nil
  show ?case by simp
next
  case (Cons x xs y ys)
  from rate_raised_matchesRule [OF Cons.hyps(1), of rx item] Cons.hyps(1) Cons.IH
  show ?case by simp
qed

lemma rate_raised_samplingRate:
  assumes "list_all2 rate_raised xs ys"
  shows "spec_samplingRate rx xs gr item \<le> spec_samplingRate rx ys gr item"
proof -
  from rate_raised_find [OF assms, of rx item]
  have "rel_option rate_raised (spec_matched rx xs item) (spec_matched rx ys item)"
    by (simp add: spec_matched_def)
  then show ?thesis
    by (cases rule: option.rel_cases) (simp_all add: spec_samplingRate_def rate_raised_def)
qed

lemma itemCount_nonneg: "0 \<le> itemCount item"
  by (simp add: itemCount_def split: option.split)

lemma rate_raised_simulatedCount:
  assumes "list_all2 rate_raised xs ys" "0 \<le> ef"
  shows "simulatedCount (spec_row rx xs ef gr item) \<le> simulatedCount (spec_row rx ys ef gr item)"
proof -
  have "itemCount item * spec_samplingRate rx xs gr item
      \<le> itemCount item * spec_samplingRate rx ys gr item"
    using rate_raised_samplingRate [OF assms(1)] itemCount_nonneg
    by (rule mult_left_mono)
  then have "itemCount item * spec_samplingRate rx xs gr item * ef
      \<le> itemCount item * spec_samplingRate rx ys gr item * ef"
    using assms(2) by (rule mult_right_mono)
  then show ?thesis by (simp add: spec_row_def)
qed

lemma rate_raised_total:
  assumes "list_all2 rate_raised rules rules'" "0 \<le> ef"
  shows "\<exists>res res'. simulateSampling rx fmt rawData rules ef gr days = Inr res
     \<and> simulateSampling rx fmt rawData rules' ef gr days = Inr res'
     \<and> totalSimulatedCount res \<le> totalSimulatedCount res'"
proof (cases "items rawData = []")
  case True
  then show ?thesis by (simp add: simulateSampling_empty)
next
  case False
  let ?m = "resolvedTotal rawData - sumOfGroups (items rawData)"
  let ?other = "if ?m > 0 then ?m * gr * ef else 0"
  from simulateSampling_fields [OF False, of rx fmt rules ef gr days]
  obtain res where res: "simulateSampling rx fmt rawData rules ef gr days = Inr res"
    and ts: "totalSimulatedCount res =
       sum_list (map (\<lambda>i. simulatedCount (spec_row rx (sortedRules rules) ef gr i)) (items rawData))
       + ?other"
    by blast
  from simulateSampling_fields [OF False, of rx fmt rules' ef gr days]
  obtain res' where res': "simulateSampling rx fmt rawData rules' ef gr days = Inr res'"
    and ts': "totalSimulatedCount res' =
       sum_list (map (\<lambda>i. simulatedCount (spec_row rx (sortedRules rules') ef gr i)) (items rawData))
       + ?other"
    by blast
  have "sum_list (map (\<lambda>i. simulatedCount (spec_row rx (sortedRules rules) ef gr i)) (items rawData))
      \<le> sum_list (map (\<lambda>i. simulatedCount (spec_row rx (sortedRules rules') ef gr i)) (items rawData))"
    by (rule sum_list_mono)
       (rule rate_raised_simulatedCount [OF rate_raised_sortedRules [OF assms(1)] assms(2)])
  then have "totalSimulatedCount res \<le> totalSimulatedCount res'"
    unfolding ts ts' by (rule add_right_mono)
  with res res' show ?thesis by blast
qed

lemma rate_raised_update:
  assumes "i < length rules" "rate (rules ! i) \<le> x"
  shows "list_all2 rate_raised rules (rules[i := (rules ! i)\<lparr>rate := x\<rparr>])"
  unfolding list_all2_conv_all_nth
proof (intro conjI allI impI)
  show "length rules = length (rules[i := (rules ! i)\<lparr>rate := x\<rparr>])" by simp
next
  fix j assume "j < length rules"
  then show "rate_raised (rules ! j) (rules[i := (rules ! i)\<lparr>rate := x\<rparr>] ! j)"
    using assms by (cases "j = i") (simp_all add: rate_raised_def)
qed

text \<open>
  C9, as amended. For an expansion factor that is not negative, raising the rate of one
  rule of the list, everything else fixed, never decreases the total simulated count.
\<close>

theorem raising_rate_never_decreases_total:
  assumes "0 \<le> ef" "i < length rules" "rate (rules ! i) \<le> x"
  shows "\<exists>res res'. simulateSampling rx fmt rawData rules ef gr days = Inr res
     \<and> simulateSampling rx fmt rawData (rules[i := (rules ! i)\<lparr>rate := x\<rparr>]) ef gr days = Inr res'
     \<and> totalSimulatedCount res \<le> totalSimulatedCount res'"
  using rate_raised_update [OF assms(2,3)] assms(1) by (rule rate_raised_total)


theorem raising_rate_never_decreases_total_witness:
  "\<exists>res res'. simulateSampling example_engine example_format
         \<lparr>items = [\<lparr>attrs = [''span.op'' \<mapsto> ''db.query''], count = Some 10\<rparr>],
          totalCountFromMeta = None\<rparr>
         [\<lparr>attribute = Some ''span.op'', operator = Some ''equals'', rule_value = Some ''db.query'', rate = 10\<rparr>]
         1 1 30 = Inr res
     \<and> simulateSampling example_engine example_format
         \<lparr>items = [\<lparr>attrs = [''span.op'' \<mapsto> ''db.query''], count = Some 10\<rparr>],
          totalCountFromMeta = None\<rparr>
         [\<lparr>attribute = Some ''span.op'', operator = Some ''equals'', rule_value = Some ''db.query'', rate = 20\<rparr>]
         1 1 30 = Inr res'
     \<and> totalSimulatedCount res \<le> totalSimulatedCount res'
     \<and> totalSimulatedCount res = 1"
proof -
  let ?r = "\<lparr>attribute = Some ''span.op'', operator = Some ''equals'', rule_value = Some ''db.query'', rate = 10\<rparr>"
  let ?r' = "\<lparr>attribute = Some ''span.op'', operator = Some ''equals'', rule_value = Some ''db.query'', rate = 20\<rparr>"
  let ?i = "\<lparr>attrs = [''span.op'' \<mapsto> ''db.query''], count = Some 10\<rparr>"
  let ?d = "\<lparr>items = [?i], totalCountFromMeta = None\<rparr>"
  have h1: "(0::real) \<le> 1" by simp
  have h2: "0 < length [?r]" by simp
  have h3: "rate ([?r] ! 0) \<le> 20" by simp
  have u: "[?r][0 := ([?r] ! 0)\<lparr>rate := 20\<rparr>] = [?r']" by simp
  note t = raising_rate_never_decreases_total
    [of 1 0 "[?r]" 20 example_engine example_format ?d 1 30]
  from t [OF h1 h2 h3, unfolded u]
  obtain res res'
    where res: "simulateSampling example_engine example_format ?d [?r] 1 1 30 = Inr res"
      and res': "simulateSampling example_engine example_format ?d [?r'] 1 1 30 = Inr res'"
      and le: "totalSimulatedCount res \<le> totalSimulatedCount res'"
    by blast
  have m: "matchesRule example_engine ?i ?r = Inr True"
    by (simp add: match_simps)
  have s: "sortedRules [?r] = [?r]"
    by (simp add: sortedRules_def array_sort_def)
  have ne: "items ?d \<noteq> []" by simp
  from simulateSampling_fields [OF ne, of example_engine example_format "[?r]" 1 1 30] res
  have ts: "totalSimulatedCount res =
      simulatedCount (spec_row example_engine (sortedRules [?r]) 1 1 ?i)"
    by (simp add: resolvedTotal_def)
  have "totalSimulatedCount res = 1"
    by (simp add: ts s spec_row_def spec_samplingRate_def spec_matched_def m itemCount_def)
  with res res' le show ?thesis by blast
qed

text \<open>
  With the expansion factor \<open>- 1\<close>, which the simulator accepts, raising the rate of the
  only rule from 10 to 20 lowers the total simulated count from \<open>- 1\<close> to \<open>- 2\<close>.
\<close>

theorem raising_rate_counterexample:
  "map_sum id totalSimulatedCount
     (simulateSampling example_engine example_format
        \<lparr>items = [\<lparr>attrs = [''span.op'' \<mapsto> ''db.query''], count = Some 10\<rparr>],
         totalCountFromMeta = None\<rparr>
        [\<lparr>attribute = Some ''span.op'', operator = Some ''equals'', rule_value = Some ''db.query'', rate = 10\<rparr>]
        (- 1) 1 30) = Inr (- 1)
   \<and> map_sum id totalSimulatedCount
     (simulateSampling example_engine example_format
        \<lparr>items = [\<lparr>attrs = [''span.op'' \<mapsto> ''db.query''], count = Some 10\<rparr>],
         totalCountFromMeta = None\<rparr>
        [\<lparr>attribute = Some ''span.op'', operator = Some ''equals'', rule_value = Some ''db.query'', rate = 20\<rparr>]
        (- 1) 1 30) = Inr (- 2)"
proof -
  let ?r = "\<lparr>attribute = Some ''span.op'', operator = Some ''equals'', rule_value = Some ''db.query'', rate = 10\<rparr>"
  let ?r' = "\<lparr>attribute = Some ''span.op'', operator = Some ''equals'', rule_value = Some ''db.query'', rate = 20\<rparr>"
  let ?i = "\<lparr>attrs = [''span.op'' \<mapsto> ''db.query''], count = Some 10\<rparr>"
  let ?d = "\<lparr>items = [?i], totalCountFromMeta = None\<rparr>"
  have m: "matchesRule example_engine ?i ?r = Inr True"
    by (simp add: match_simps)
  have m': "matchesRule example_engine ?i ?r' = Inr True"
    by (simp add: match_simps)
  have s: "sortedRules [?r] = [?r]"
    by (simp add: sortedRules_def array_sort_def)
  have s': "sortedRules [?r'] = [?r']"
    by (simp add: sortedRules_def array_sort_def)
  have ne: "items ?d \<noteq> []" by simp
  from simulateSampling_fields [OF ne, of example_engine example_format "[?r]" "- 1" 1 30]
  obtain res where res: "simulateSampling example_engine example_format ?d [?r] (- 1) 1 30 = Inr res"
    and ts: "totalSimulatedCount res =
      simulatedCount (spec_row example_engine (sortedRules [?r]) (- 1) 1 ?i)"
    by (auto simp: resolvedTotal_def)
  from simulateSampling_fields [OF ne, of example_engine example_format "[?r']" "- 1" 1 30]
  obtain res' where res': "simulateSampling example_engine example_format ?d [?r'] (- 1) 1 30 = Inr res'"
    and ts': "totalSimulatedCount res' =
      simulatedCount (spec_row example_engine (sortedRules [?r']) (- 1) 1 ?i)"
    by (auto simp: resolvedTotal_def)
  have "totalSimulatedCount res = - 1"
    by (simp add: ts s spec_row_def spec_samplingRate_def spec_matched_def m itemCount_def)
  moreover have "totalSimulatedCount res' = - 2"
    by (simp add: ts' s' spec_row_def spec_samplingRate_def spec_matched_def m' itemCount_def)
  ultimately show ?thesis by (simp add: res res')
qed

end
